theory Spec2Isabelle
  imports Main
begin

section \<open>Data model\<close>

text \<open>
  The incremental cache of \<^verbatim>\<open>index.js\<close>. A file identity is the relative path that
  \<^verbatim>\<open>helpers.multiGlob\<close> returns; a fingerprint is the string that
  \<^verbatim>\<open>helpers.hashStats\<close> returns; file contents are strings (everything is read and
  written with \<^verbatim>\<open>{encoding: 'utf8'}\<close>).
\<close>

type_synonym path = string
type_synonym fingerprint = string
type_synonym bytes = string

text \<open>
  A cache entry is the object literal \<^verbatim>\<open>{ hash: hash }\<close> of line 161, to which line 173
  later adds the property \<^verbatim>\<open>content\<close>. Until then \<^verbatim>\<open>cache.content\<close> is
  \<^verbatim>\<open>undefined\<close>: that is \<open>None\<close>.
\<close>

record entry =
  hash :: fingerprint
  content :: "bytes option"

text \<open>
  \<^verbatim>\<open>this.cache\<close> is a plain object used as a dictionary from file paths to entries.
  (Paths that happen to name a property of \<^verbatim>\<open>Object.prototype\<close> are outside this model.)
  The destination directory is a map from paths below \<^verbatim>\<open>destDir\<close> to file contents.
\<close>

type_synonym cache_store = "path \<rightharpoonup> entry"
type_synonym fs = "path \<rightharpoonup> bytes"

section \<open>Construction (lines 36 to 112)\<close>

text \<open>
  The constructor's arguments are arbitrary JavaScript values. Objects and functions are
  opaque here (a number names each); numbers are the integers and \<^verbatim>\<open>NaN\<close>.
\<close>

datatype jsval =
    JUndefined
  | JNull
  | JBoolean bool
  | JNumber int
  | JNaN
  | JString string
  | JArray "jsval list"
  | JObject nat
  | JFunction nat

datatype jstype = TUndefined | TObject | TBoolean | TNumber | TString | TFunction

fun typeof :: "jsval \<Rightarrow> jstype" where
  "typeof JUndefined = TUndefined"
| "typeof JNull = TObject"
| "typeof (JBoolean b) = TBoolean"
| "typeof (JNumber n) = TNumber"
| "typeof JNaN = TNumber"
| "typeof (JString s) = TString"
| "typeof (JArray xs) = TObject"
| "typeof (JObject k) = TObject"
| "typeof (JFunction k) = TFunction"

text \<open>\<^verbatim>\<open>!v\<close>: the values JavaScript takes for false.\<close>

fun falsy :: "jsval \<Rightarrow> bool" where
  "falsy JUndefined = True"
| "falsy JNull = True"
| "falsy (JBoolean b) = (\<not> b)"
| "falsy (JNumber n) = (n = 0)"
| "falsy JNaN = True"
| "falsy (JString s) = (s = [])"
| "falsy (JArray xs) = False"
| "falsy (JObject k) = False"
| "falsy (JFunction k) = False"

fun isArray :: "jsval \<Rightarrow> bool" where
  "isArray (JArray xs) = True"
| "isArray v = False"

text \<open>
  The libraries the constructor calls:
  \<^item> \<open>isAbsolute v\<close>: \<^verbatim>\<open>helpers.assertAbsolutePaths([v])\<close> returns (it throws otherwise);
  \<^item> \<open>formatters name\<close>: the property \<^verbatim>\<open>formatters[name]\<close> of the transpiler's table
    of formatters, \<^verbatim>\<open>undefined\<close> when there is none;
  \<^item> \<open>construct f\<close>: the value of \<^verbatim>\<open>new f()\<close>, \<open>None\<close> when the call throws.
\<close>

record library =
  isAbsolute :: "jsval \<Rightarrow> bool"
  formatters :: "string \<Rightarrow> jsval"
  construct :: "jsval \<Rightarrow> jsval option"

datatype config_error =
    ExpectedInputTree           \<comment> \<open>line 52\<close>
  | ExpectedArrayOfGlobs        \<comment> \<open>line 65\<close>
  | PathMustBeAbsolute          \<comment> \<open>thrown by \<^verbatim>\<open>helpers.assertAbsolutePaths\<close>, line 76\<close>
  | NoBuiltinFormatter string   \<comment> \<open>line 94\<close>
  | ExpectedFormatterObject     \<comment> \<open>line 106\<close>
  | OptionsMissing              \<comment> \<open>\<^verbatim>\<open>options\<close> is \<^verbatim>\<open>undefined\<close> or \<^verbatim>\<open>null\<close>: reading a property throws\<close>
  | ConstructorThrew            \<comment> \<open>\<^verbatim>\<open>new formatter()\<close> throws, line 102\<close>

text \<open>Each setter returns the value it stores in \<^verbatim>\<open>this\<close>, or the error it throws.\<close>

definition setInputTree :: "jsval \<Rightarrow> config_error + jsval" where
  "setInputTree inputTree =
     (if inputTree = JUndefined \<or> inputTree = JNull then Inl ExpectedInputTree
      else Inr inputTree)"

definition setInputFiles :: "jsval \<Rightarrow> config_error + jsval" where
  "setInputFiles inputFiles =
     (if \<not> isArray inputFiles then Inl ExpectedArrayOfGlobs else Inr inputFiles)"

definition setOutput :: "library \<Rightarrow> jsval \<Rightarrow> config_error + jsval" where
  "setOutput lib output = (if isAbsolute lib output then Inr output else Inl PathMustBeAbsolute)"

text \<open>Lines 90 to 103: a string names a built-in formatter, which is instantiated.\<close>

definition lookupFormatter :: "library \<Rightarrow> jsval \<Rightarrow> config_error + jsval" where
  "lookupFormatter lib formatter =
     (case formatter of
        JString formatterName \<Rightarrow>
          (if typeof (formatters lib formatterName) \<noteq> TFunction
           then Inl (NoBuiltinFormatter formatterName)
           else (case construct lib (formatters lib formatterName) of
                   None \<Rightarrow> Inl ConstructorThrew
                 | Some obj \<Rightarrow> Inr obj))
      | _ \<Rightarrow> Inr formatter)"

definition setFormatter :: "library \<Rightarrow> jsval \<Rightarrow> config_error + jsval" where
  "setFormatter lib formatter =
     (case lookupFormatter lib (if falsy formatter then formatters lib ''DEFAULT'' else formatter) of
        Inl e \<Rightarrow> Inl e
      | Inr formatter' \<Rightarrow>
          if typeof formatter' \<noteq> TObject then Inl ExpectedFormatterObject else Inr formatter')"

text \<open>The instance, once the five assignments of lines 37 to 42 are done.\<close>

record compile_modules =
  inputTree :: jsval
  inputFiles :: jsval
  "output" :: jsval
  formatter :: jsval
  cache :: cache_store

text \<open>
  \<^verbatim>\<open>options\<close> is \<open>None\<close> when it is \<^verbatim>\<open>undefined\<close> or \<^verbatim>\<open>null\<close>, and otherwise
  the function from property names to values (\<^verbatim>\<open>undefined\<close> for a property it lacks).
  The arguments of the setters are evaluated one by one, in the order of lines 37 to 40.
\<close>

definition CompileModules ::
  "library \<Rightarrow> jsval \<Rightarrow> (string \<Rightarrow> jsval) option \<Rightarrow> config_error + compile_modules" where
  "CompileModules lib tree options =
     (case setInputTree tree of
        Inl e \<Rightarrow> Inl e
      | Inr t \<Rightarrow>
     (case options of
        None \<Rightarrow> Inl OptionsMissing
      | Some opt \<Rightarrow>
     (case setInputFiles (opt ''inputFiles'') of
        Inl e \<Rightarrow> Inl e
      | Inr fs \<Rightarrow>
     (case setOutput lib (opt ''output'') of
        Inl e \<Rightarrow> Inl e
      | Inr out \<Rightarrow>
     (case setFormatter lib (opt ''formatter'') of
        Inl e \<Rightarrow> Inl e
      | Inr fmt \<Rightarrow>
          Inr \<lparr>inputTree = t, inputFiles = fs, output = out, formatter = fmt,
               cache = Map.empty\<rparr>)))))"

section \<open>One pass over the input files\<close>

datatype error =
    GlobError         \<comment> \<open>\<^verbatim>\<open>helpers.multiGlob\<close> throws\<close>
  | StatError         \<comment> \<open>\<^verbatim>\<open>fs.statSync\<close> throws (line 149)\<close>
  | WriteError        \<comment> \<open>\<^verbatim>\<open>fs.writeFileSync\<close> rejects its data (line 155)\<close>
  | TransformError    \<comment> \<open>\<^verbatim>\<open>container.write\<close> throws (line 167)\<close>
  | TypeError         \<comment> \<open>property access on \<^verbatim>\<open>undefined\<close>\<close>
  | ReadError         \<comment> \<open>\<^verbatim>\<open>fs.readFileSync\<close> throws (line 173)\<close>

text \<open>
  What one call of \<^verbatim>\<open>write\<close> sees of the outside, once \<^verbatim>\<open>readTree\<close> has delivered
  the source directory: the libraries it calls and the two directories. The instance's \<^verbatim>\<open>inputFiles\<close> globs and \<^verbatim>\<open>output\<close> path are fixed at
  construction, so they are part of these functions.
  \<^item> \<open>srcGlob\<close>: \<^verbatim>\<open>helpers.multiGlob(this.inputFiles, {cwd: srcDir})\<close> (line 128);
    \<open>None\<close> when it throws.
  \<^item> \<open>hashStats\<close>: \<^verbatim>\<open>helpers.hashStats(fs.statSync(path.join(srcDir, filepath)))\<close>
    (line 149); \<open>None\<close> when \<^verbatim>\<open>statSync\<close> throws.
  \<^item> \<open>outPath\<close>: \<^verbatim>\<open>path.join(this.output, filepath)\<close>, the place of a file below
    \<^verbatim>\<open>destDir\<close> (lines 153, 166 and 173).
  \<^item> \<open>writeUndefined\<close>: what \<^verbatim>\<open>fs.writeFileSync\<close> stores when its data is
    \<^verbatim>\<open>undefined\<close>: older runtimes store the text \<^verbatim>\<open>undefined\<close>, newer ones throw
    (\<open>None\<close>).
  \<^item> \<open>containerWrite\<close>: \<^verbatim>\<open>container.write(outputPath)\<close> (line 167), given the paths
    registered with \<^verbatim>\<open>container.getModule\<close> and the destination so far; \<open>None\<close>
    when it throws.
  \<^item> \<open>destGlob\<close>: \<^verbatim>\<open>helpers.multiGlob(this.inputFiles, {cwd: destDir, nomount: false})\<close>
    (line 170) on the destination; \<open>None\<close> when it throws.
\<close>

record world =
  srcGlob :: "path list option"
  hashStats :: "path \<Rightarrow> fingerprint option"
  outPath :: "path \<Rightarrow> path"
  writeUndefined :: "bytes option"
  containerWrite :: "path list \<Rightarrow> fs \<Rightarrow> fs option"
  destGlob :: "fs \<Rightarrow> path list option"

text \<open>
  The state one call of \<^verbatim>\<open>write\<close> works on: \<^verbatim>\<open>this.cache\<close>, the destination
  directory, the paths registered so far with \<^verbatim>\<open>container.getModule\<close>, and a log of the
  calls of \<^verbatim>\<open>container.write\<close> (each with the paths registered at that moment).
\<close>

record pass =
  cache :: cache_store
  dest :: fs
  modules :: "path list"
  writes :: "path list list"

section \<open>The planning loop (lines 144 to 164)\<close>

text \<open>
  \<^verbatim>\<open>fs.writeFileSync(dest, cache.content, {encoding: 'utf8'})\<close>: a string is stored as it
  is, \<^verbatim>\<open>undefined\<close> as the runtime decides. The directories that \<^verbatim>\<open>mkdirp\<close> makes
  are not part of the model: the destination is a flat map from paths to contents.
\<close>

definition writeFileSync :: "world \<Rightarrow> fs \<Rightarrow> path \<Rightarrow> bytes option \<Rightarrow> fs option" where
  "writeFileSync w d p data =
     (case data of
        Some s \<Rightarrow> Some (d(p \<mapsto> s))
      | None \<Rightarrow> (case writeUndefined w of
                   Some s \<Rightarrow> Some (d(p \<mapsto> s))
                 | None \<Rightarrow> None))"

text \<open>
  One iteration of the loop. An exception leaves the state as it is at the throw, so the
  result is the state with the error, if any.
\<close>

definition plan_step :: "world \<Rightarrow> pass \<Rightarrow> path \<Rightarrow> error option \<times> pass" where
  "plan_step w st filepath =
     (case hashStats w filepath of
        None \<Rightarrow> (Some StatError, st)
      | Some h \<Rightarrow>
          (case cache st filepath of
             Some c \<Rightarrow>
               if hash c = h then
                 (case writeFileSync w (dest st) (outPath w filepath) (content c) of
                    None \<Rightarrow> (Some WriteError, st)
                  | Some d \<Rightarrow> (None, st\<lparr>dest := d\<rparr>))
               else
                 (None, st\<lparr>cache := (cache st)(filepath \<mapsto> c\<lparr>hash := h\<rparr>),
                             modules := modules st @ [filepath]\<rparr>)
           | None \<Rightarrow>
               (None, st\<lparr>cache := (cache st)(filepath \<mapsto> \<lparr>hash = h, content = None\<rparr>),
                           modules := modules st @ [filepath]\<rparr>)))"

fun plan_loop :: "world \<Rightarrow> pass \<Rightarrow> path list \<Rightarrow> error option \<times> pass" where
  "plan_loop w st [] = (None, st)"
| "plan_loop w st (filepath # rest) =
     (case plan_step w st filepath of
        (Some e, st') \<Rightarrow> (Some e, st')
      | (None, st') \<Rightarrow> plan_loop w st' rest)"

section \<open>Reading the outputs back (lines 170 to 174)\<close>

text \<open>
  The body of the \<^verbatim>\<open>forEach\<close>: \<^verbatim>\<open>this.cache[filepath].content = fs.readFileSync(...)\<close>.
  The right-hand side is evaluated first, so a file that cannot be read throws before
  anything is assigned. There is no test that \<^verbatim>\<open>this.cache[filepath]\<close> exists: on
  \<^verbatim>\<open>undefined\<close> the assignment throws a \<^verbatim>\<open>TypeError\<close>.
\<close>

definition readback_step :: "world \<Rightarrow> pass \<Rightarrow> path \<Rightarrow> error option \<times> pass" where
  "readback_step w st filepath =
     (case dest st (outPath w filepath) of
        None \<Rightarrow> (Some ReadError, st)
      | Some s \<Rightarrow>
          (case cache st filepath of
             None \<Rightarrow> (Some TypeError, st)
           | Some c \<Rightarrow> (None, st\<lparr>cache := (cache st)(filepath \<mapsto> c\<lparr>content := Some s\<rparr>)\<rparr>)))"

fun readback :: "world \<Rightarrow> pass \<Rightarrow> path list \<Rightarrow> error option \<times> pass" where
  "readback w st [] = (None, st)"
| "readback w st (filepath # rest) =
     (case readback_step w st filepath of
        (Some e, st') \<Rightarrow> (Some e, st')
      | (None, st') \<Rightarrow> readback w st' rest)"

section \<open>One pass: \<^verbatim>\<open>CompileModules.prototype.write\<close>\<close>

definition transform :: "world \<Rightarrow> pass \<Rightarrow> error option \<times> pass" where
  "transform w st =
     (let st1 = st\<lparr>writes := writes st @ [modules st]\<rparr> in
      case containerWrite w (modules st) (dest st) of
        None \<Rightarrow> (Some TransformError, st1)
      | Some d \<Rightarrow> (None, st1\<lparr>dest := d\<rparr>))"

definition reconcile :: "world \<Rightarrow> pass \<Rightarrow> error option \<times> pass" where
  "reconcile w st =
     (case destGlob w (dest st) of
        None \<Rightarrow> (Some GlobError, st)
      | Some outputFiles \<Rightarrow> readback w st outputFiles)"

text \<open>
  Lines 122 to 128: the pass starts with the cache the instance holds, the destination
  directory it is given and a new container.
\<close>

definition start :: "cache_store \<Rightarrow> fs \<Rightarrow> pass" where
  "start c d = \<lparr>cache = c, dest = d, modules = [], writes = []\<rparr>"

definition planning :: "world \<Rightarrow> cache_store \<Rightarrow> fs \<Rightarrow> error option \<times> pass" where
  "planning w c d =
     (case srcGlob w of
        None \<Rightarrow> (Some GlobError, start c d)
      | Some files \<Rightarrow> plan_loop w (start c d) files)"

definition "write" :: "world \<Rightarrow> cache_store \<Rightarrow> fs \<Rightarrow> error option \<times> pass" where
  "write w c d =
     (case planning w c d of
        (Some e, st) \<Rightarrow> (Some e, st)
      | (None, st) \<Rightarrow>
          (case transform w st of
             (Some e, st') \<Rightarrow> (Some e, st')
           | (None, st') \<Rightarrow> reconcile w st'))"

text \<open>
  The build tool calls \<^verbatim>\<open>write\<close> once per rebuild, on the same instance, each time with
  the directories of that rebuild. Whatever a pass has assigned to \<^verbatim>\<open>this.cache\<close> stays,
  also when the pass ends with an exception.
\<close>

fun rebuilds :: "(world \<times> fs) list \<Rightarrow> cache_store \<Rightarrow> cache_store" where
  "rebuilds [] c = c"
| "rebuilds ((w, d) # rest) c = rebuilds rest (cache (snd (write w c d)))"



section \<open>The built-in formatters\<close>

text \<open>
  The names that the message of line 94 offers as the built-in formatters (lines 97 to
  99): the own keys of the transpiler's table \<^verbatim>\<open>formatters\<close>, without
  \<^verbatim>\<open>DEFAULT\<close>. The argument is \<^verbatim>\<open>Object.keys(formatters)\<close>.
\<close>

definition builtin_names :: "string list \<Rightarrow> string list" where
  "builtin_names keys = filter (\<lambda>key. key \<noteq> ''DEFAULT'') keys"

section \<open>Concrete instances\<close>

text \<open>
  The inputs at which the theorems below are instantiated: a library with the
  transpiler's two formatters, a set of options and the instance built from them; a new
  instance's cache and an empty destination directory; and source directories with the
  files \<^verbatim>\<open>a.js\<close> and \<^verbatim>\<open>b.js\<close>.
\<close>

definition example_library :: library where
  "example_library =
     \<lparr>isAbsolute = (\<lambda>v. case v of JString (c # cs) \<Rightarrow> c = CHR ''/'' | _ \<Rightarrow> False),
      formatters = (\<lambda>name. if name = ''DEFAULT'' then JString ''bundle''
                            else if name = ''bundle'' then JFunction 0
                            else if name = ''commonjs'' then JFunction 1
                            else JUndefined),
      construct = (\<lambda>f. case f of JFunction k \<Rightarrow> Some (JObject k) | _ \<Rightarrow> None)\<rparr>"

definition example_options :: "string \<Rightarrow> jsval" where
  "example_options name =
     (if name = ''inputFiles'' then JArray [JString ''*.js'']
      else if name = ''output'' then JString ''/''
      else if name = ''formatter'' then JString ''commonjs''
      else JUndefined)"

definition example_instance :: compile_modules where
  "example_instance =
     \<lparr>inputTree = JObject 7, inputFiles = JArray [JString ''*.js''], output = JString ''/'',
      formatter = JObject 1, cache = Map.empty\<rparr>"

definition no_entries :: cache_store where
  "no_entries = Map.empty"

definition empty_dir :: fs where
  "empty_dir = Map.empty"

text \<open>
  Two source files; the transform writes one output per registered file, at the file's
  own path (\<^verbatim>\<open>output\<close> is \<^verbatim>\<open>'/'\<close>); the glob \<^verbatim>\<open>*.js\<close> finds both outputs.
\<close>

definition two_files :: world where
  "two_files =
     \<lparr>srcGlob = Some [''a.js'', ''b.js''],
      hashStats = (\<lambda>p. if p = ''a.js'' \<or> p = ''b.js'' then Some ''h1'' else None),
      outPath = (\<lambda>p. p),
      writeUndefined = Some ''undefined'',
      containerWrite = (\<lambda>ms d. Some (d ++ map_of (map (\<lambda>p. (p, ''compiled '' @ p)) ms))),
      destGlob = (\<lambda>d. Some (filter (\<lambda>p. d p \<noteq> None) [''a.js'', ''b.js'']))\<rparr>"

text \<open>The cache after a first pass over \<open>two_files\<close>, and an entry that has no content.\<close>

definition warm_cache :: cache_store where
  "warm_cache =
     [''a.js'' \<mapsto> \<lparr>hash = ''h1'', content = Some ''compiled a.js''\<rparr>,
      ''b.js'' \<mapsto> \<lparr>hash = ''h1'', content = Some ''compiled b.js''\<rparr>]"

definition no_content_cache :: cache_store where
  "no_content_cache = [''a.js'' \<mapsto> \<lparr>hash = ''h1'', content = None\<rparr>]"

text \<open>Variations: a runtime whose \<^verbatim>\<open>writeFileSync\<close> rejects \<^verbatim>\<open>undefined\<close>; \<^verbatim>\<open>b.js\<close>
  deleted between the glob and the stat; \<^verbatim>\<open>a.js\<close> touched; \<^verbatim>\<open>b.js\<close> no longer matched
  by the globs.\<close>

definition strict_runtime :: world where
  "strict_runtime = two_files\<lparr>writeUndefined := None\<rparr>"

definition b_vanished :: world where
  "b_vanished = two_files\<lparr>hashStats := (\<lambda>p. if p = ''a.js'' then Some ''h1'' else None)\<rparr>"

definition a_touched :: world where
  "a_touched = two_files\<lparr>hashStats := (\<lambda>p. if p = ''a.js'' then Some ''h2''
                                          else if p = ''b.js'' then Some ''h1'' else None)\<rparr>"


definition b_removed :: world where
  "b_removed = two_files\<lparr>srcGlob := Some [''a.js'']\<rparr>"


text \<open>
  The transpiler's table of formatters is a plain object with the own keys
  \<^verbatim>\<open>DEFAULT\<close>, \<^verbatim>\<open>bundle\<close> and \<^verbatim>\<open>commonjs\<close>. Reading a property of it also
  finds what every object inherits: \<^verbatim>\<open>formatters['constructor']\<close> is the function
  \<^verbatim>\<open>Object\<close>, and \<^verbatim>\<open>new Object()\<close> is an empty object. \<open>constructor_options\<close>
  are the options of \<open>example_options\<close> with the formatter name \<^verbatim>\<open>'constructor'\<close>.
\<close>

definition transpiler_keys :: "string list" where
  "transpiler_keys = [''DEFAULT'', ''bundle'', ''commonjs'']"

definition transpiler_library :: library where
  "transpiler_library =
     example_library\<lparr>formatters := (\<lambda>name. if name = ''constructor'' then JFunction 2
                                              else formatters example_library name)\<rparr>"

definition constructor_options :: "string \<Rightarrow> jsval" where
  "constructor_options name =
     (if name = ''formatter'' then JString ''constructor'' else example_options name)"



text \<open>
  One source file, globs that match every file (\<^verbatim>\<open>*\<close>), and a transform that writes
  a source map beside each output: the read-back glob finds \<^verbatim>\<open>a.js.map\<close>, which was
  never an input file.
\<close>

definition with_source_maps :: world where
  "with_source_maps =
     \<lparr>srcGlob = Some [''a.js''],
      hashStats = (\<lambda>p. if p = ''a.js'' then Some ''h1'' else None),
      outPath = (\<lambda>p. p),
      writeUndefined = Some ''undefined'',
      containerWrite = (\<lambda>ms d. Some (d ++ map_of (concat (map (\<lambda>p.
                          [(p, ''compiled '' @ p), (p @ ''.map'', ''map of '' @ p)]) ms)))),
      destGlob = (\<lambda>d. Some (filter (\<lambda>p. d p \<noteq> None) [''a.js'', ''a.js.map'']))\<rparr>"

section \<open>Lemmas: the planning loop\<close>

text \<open>
  The four branches of an iteration, and what the loop keeps: the log of bulk writes,
  the entries of the cache, the cached contents, and fingerprints that are up to date.
\<close>

lemma plan_step_cold:
  "hashStats w p = Some h \<Longrightarrow> cache st p = None \<Longrightarrow>
   plan_step w st p =
     (None, st\<lparr>cache := (cache st)(p \<mapsto> \<lparr>hash = h, content = None\<rparr>),
                modules := modules st @ [p]\<rparr>)"
  by (simp add: plan_step_def)

lemma plan_step_stale:
  "hashStats w p = Some h \<Longrightarrow> cache st p = Some c \<Longrightarrow> hash c \<noteq> h \<Longrightarrow>
   plan_step w st p =
     (None, st\<lparr>cache := (cache st)(p \<mapsto> c\<lparr>hash := h\<rparr>), modules := modules st @ [p]\<rparr>)"
  by (simp add: plan_step_def)

lemma plan_step_hit:
  "hashStats w p = Some h \<Longrightarrow> cache st p = Some c \<Longrightarrow> hash c = h \<Longrightarrow>
   plan_step w st p =
     (case writeFileSync w (dest st) (outPath w p) (content c) of
        None \<Rightarrow> (Some WriteError, st)
      | Some d \<Rightarrow> (None, st\<lparr>dest := d\<rparr>))"
  by (simp add: plan_step_def)

lemma plan_step_nostat:
  "hashStats w p = None \<Longrightarrow> plan_step w st p = (Some StatError, st)"
  by (simp add: plan_step_def)

lemma plan_step_writes: "writes (snd (plan_step w st p)) = writes st"
  by (simp add: plan_step_def split: option.splits)

lemma plan_loop_writes: "writes (snd (plan_loop w st ps)) = writes st"
proof (induction ps arbitrary: st)
  case Nil
  show ?case by simp
next
  case (Cons p ps)
  obtain e st1 where s: "plan_step w st p = (e, st1)" by (cases "plan_step w st p")
  have "writes st1 = writes st" using plan_step_writes [of w st p] s by simp
  then show ?case using Cons.IH [of st1] s by (cases e) simp_all
qed

lemma plan_loop_append:
  "plan_loop w st (xs @ ys) =
     (case plan_loop w st xs of
        (Some e, st') \<Rightarrow> (Some e, st')
      | (None, st') \<Rightarrow> plan_loop w st' ys)"
proof (induction xs arbitrary: st)
  case Nil
  show ?case by simp
next
  case (Cons x xs)
  obtain e st1 where s: "plan_step w st x = (e, st1)" by (cases "plan_step w st x")
  show ?case using Cons.IH [of st1] s by (cases e) simp_all
qed

lemma plan_loop_cold:
  "distinct ps \<Longrightarrow> \<forall>p\<in>set ps. cache st p = None \<Longrightarrow> plan_loop w st ps = (e, st') \<Longrightarrow>
   dest st' = dest st \<and> (e = None \<longrightarrow> modules st' = modules st @ ps)"
proof (induction ps arbitrary: st)
  case Nil
  then show ?case by simp
next
  case (Cons p ps)
  show ?case
  proof (cases "hashStats w p")
    case None
    then show ?thesis using Cons.prems(3) by (auto simp: plan_step_nostat)
  next
    case (Some h)
    let ?st1 = "st\<lparr>cache := (cache st)(p \<mapsto> \<lparr>hash = h, content = None\<rparr>),
                     modules := modules st @ [p]\<rparr>"
    have s: "plan_step w st p = (None, ?st1)"
      using Some Cons.prems(2) by (simp add: plan_step_cold)
    have l: "plan_loop w ?st1 ps = (e, st')" using Cons.prems(3) s by simp
    have d: "distinct ps" and c: "\<forall>q\<in>set ps. cache ?st1 q = None"
      using Cons.prems(1,2) by auto
    show ?thesis using Cons.IH [OF d c l] by simp
  qed
qed

lemma plan_step_dom: "dom (cache st) \<subseteq> dom (cache (snd (plan_step w st p)))"
  by (auto simp: plan_step_def split: option.splits)

lemma plan_loop_dom: "dom (cache st) \<subseteq> dom (cache (snd (plan_loop w st ps)))"
proof (induction ps arbitrary: st)
  case Nil
  show ?case by simp
next
  case (Cons p ps)
  obtain e st1 where s: "plan_step w st p = (e, st1)" by (cases "plan_step w st p")
  have "dom (cache st) \<subseteq> dom (cache st1)" using plan_step_dom [of st w p] s by simp
  then show ?case using Cons.IH [of st1] s by (cases e) auto
qed










section \<open>Lemmas: reading the outputs back\<close>

text \<open>
  The read-back changes nothing but the contents of existing entries.
\<close>

lemma readback_step_hash:
  "map_option hash (cache (snd (readback_step w st p)) q) = map_option hash (cache st q)"
  by (simp add: readback_step_def split: option.splits)

lemma readback_step_frame:
  "dest (snd (readback_step w st p)) = dest st \<and>
   modules (snd (readback_step w st p)) = modules st \<and>
   writes (snd (readback_step w st p)) = writes st"
  by (simp add: readback_step_def split: option.splits)

lemma readback_step_entry:
  "(cache (snd (readback_step w st p)) q = None) = (cache st q = None)"
  using readback_step_hash [of w st p q] by (metis map_option_is_None)

lemma readback_step_dom: "dom (cache (snd (readback_step w st p))) = dom (cache st)"
  using readback_step_entry [of w st p] by (auto simp: dom_def)

lemma readback_hash:
  "map_option hash (cache (snd (readback w st ps)) q) = map_option hash (cache st q)"
proof (induction ps arbitrary: st)
  case Nil
  show ?case by simp
next
  case (Cons p ps)
  obtain e st1 where s: "readback_step w st p = (e, st1)" by (cases "readback_step w st p")
  have "map_option hash (cache st1 q) = map_option hash (cache st q)"
    using readback_step_hash [of w st p q] s by simp
  then show ?case using Cons.IH [of st1] s by (cases e) simp_all
qed

lemma readback_frame:
  "dest (snd (readback w st ps)) = dest st \<and>
   modules (snd (readback w st ps)) = modules st \<and>
   writes (snd (readback w st ps)) = writes st"
proof (induction ps arbitrary: st)
  case Nil
  show ?case by simp
next
  case (Cons p ps)
  obtain e st1 where s: "readback_step w st p = (e, st1)" by (cases "readback_step w st p")
  have "dest st1 = dest st \<and> modules st1 = modules st \<and> writes st1 = writes st"
    using readback_step_frame [of w st p] s by simp
  then show ?case using Cons.IH [of st1] s by (cases e) simp_all
qed

lemma readback_needs_entries:
  "readback w st ps = (None, st') \<Longrightarrow> \<forall>p\<in>set ps. cache st p \<noteq> None"
proof (induction ps arbitrary: st)
  case Nil
  show ?case by simp
next
  case (Cons p ps)
  obtain e st1 where s: "readback_step w st p = (e, st1)" by (cases "readback_step w st p")
  have e: "e = None" using Cons.prems s by (cases e) simp_all
  have here: "cache st p \<noteq> None"
    using s e by (auto simp: readback_step_def split: option.splits)
  have "readback w st1 ps = (None, st')" using Cons.prems s e by simp
  then have "\<forall>q\<in>set ps. cache st1 q \<noteq> None" by (rule Cons.IH)
  moreover have "\<And>q. (cache st1 q = None) = (cache st q = None)"
    using readback_step_entry [of w st p] s by simp
  ultimately have "\<forall>q\<in>set ps. cache st q \<noteq> None" by blast
  then show ?case using here by simp
qed


lemma reconcile_hash:
  "map_option hash (cache (snd (reconcile w st)) q) = map_option hash (cache st q)"
  by (simp add: reconcile_def readback_hash split: option.splits)

lemma reconcile_frame:
  "dest (snd (reconcile w st)) = dest st \<and>
   modules (snd (reconcile w st)) = modules st \<and>
   writes (snd (reconcile w st)) = writes st"
  by (simp add: reconcile_def readback_frame split: option.splits)

section \<open>Lemmas: the whole pass\<close>

lemma transform_frame:
  "cache (snd (transform w st)) = cache st \<and>
   modules (snd (transform w st)) = modules st \<and>
   writes (snd (transform w st)) = writes st @ [modules st]"
  by (simp add: transform_def Let_def split: option.splits)

lemma planning_writes: "writes (snd (planning w c d)) = []"
  by (simp add: planning_def plan_loop_writes start_def split: option.splits)

lemma planning_dom: "dom c \<subseteq> dom (cache (snd (planning w c d)))"
  using plan_loop_dom [of "start c d" w] by (simp add: planning_def start_def split: option.splits)


lemma write_steps:
  "planning w c d = (None, st1) \<Longrightarrow> transform w st1 = (None, st2) \<Longrightarrow> reconcile w st2 = r \<Longrightarrow>
   write w c d = r"
  by (simp add: write_def)

lemma write_planning_failed:
  "planning w c d = (Some e, st) \<Longrightarrow> write w c d = (Some e, st)"
  by (simp add: write_def)


lemma write_hash:
  "map_option hash (cache (snd (write w c d)) q) = map_option hash (cache (snd (planning w c d)) q)"
proof -
  obtain e st where p: "planning w c d = (e, st)" by (cases "planning w c d")
  obtain e' st' where t: "transform w st = (e', st')" by (cases "transform w st")
  have c: "cache st' = cache st" using transform_frame [of w st] t by simp
  show ?thesis
  proof (cases e)
    case None
    then show ?thesis
      using p t c reconcile_hash [of w st' q] by (cases e') (simp_all add: write_def)
  next
    case (Some a)
    then show ?thesis using p by (simp add: write_def)
  qed
qed

lemma write_dom: "dom c \<subseteq> dom (cache (snd (write w c d)))"
proof -
  have "\<And>q. (cache (snd (write w c d)) q = None) = (cache (snd (planning w c d)) q = None)"
    using write_hash [of w c d] by (metis map_option_is_None)
  then have "dom (cache (snd (write w c d))) = dom (cache (snd (planning w c d)))"
    by (auto simp: dom_def)
  then show ?thesis using planning_dom [of c w d] by simp
qed

lemma rebuilds_dom: "dom c \<subseteq> dom (rebuilds ps c)"
proof (induction ps arbitrary: c)
  case Nil
  show ?case by simp
next
  case (Cons x ps)
  obtain w d where x: "x = (w, d)" by (cases x)
  have "dom c \<subseteq> dom (cache (snd (write w c d)))" by (rule write_dom)
  also have "\<dots> \<subseteq> dom (rebuilds ps (cache (snd (write w c d))))" by (rule Cons.IH)
  finally show ?case using x by simp
qed



section \<open>The concrete passes, step by step\<close>

lemma example_construction:
  "CompileModules example_library (JObject 7) (Some example_options) = Inr example_instance"
  by (simp add: CompileModules_def setInputTree_def setInputFiles_def setOutput_def
      setFormatter_def lookupFormatter_def example_library_def example_options_def
      example_instance_def)

lemma two_files_planning:
  "planning two_files no_entries empty_dir =
     (None, \<lparr>cache = [''a.js'' \<mapsto> \<lparr>hash = ''h1'', content = None\<rparr>,
                      ''b.js'' \<mapsto> \<lparr>hash = ''h1'', content = None\<rparr>],
             dest = empty_dir, modules = [''a.js'', ''b.js''], writes = []\<rparr>)"
  by (simp add: planning_def two_files_def start_def plan_step_def no_entries_def)

lemma two_files_first_pass:
  "write two_files no_entries empty_dir =
     (None, \<lparr>cache = warm_cache,
             dest = [''a.js'' \<mapsto> ''compiled a.js'', ''b.js'' \<mapsto> ''compiled b.js''],
             modules = [''a.js'', ''b.js''], writes = [[''a.js'', ''b.js'']]\<rparr>)"
proof -
  have t: "transform two_files
      \<lparr>cache = [''a.js'' \<mapsto> \<lparr>hash = ''h1'', content = None\<rparr>,
                ''b.js'' \<mapsto> \<lparr>hash = ''h1'', content = None\<rparr>],
       dest = empty_dir, modules = [''a.js'', ''b.js''], writes = []\<rparr> =
     (None, \<lparr>cache = [''a.js'' \<mapsto> \<lparr>hash = ''h1'', content = None\<rparr>,
                ''b.js'' \<mapsto> \<lparr>hash = ''h1'', content = None\<rparr>],
       dest = [''a.js'' \<mapsto> ''compiled a.js'', ''b.js'' \<mapsto> ''compiled b.js''],
       modules = [''a.js'', ''b.js''], writes = [[''a.js'', ''b.js'']]\<rparr>)"
    by (simp add: transform_def two_files_def empty_dir_def fun_eq_iff)
  have r: "reconcile two_files
      \<lparr>cache = [''a.js'' \<mapsto> \<lparr>hash = ''h1'', content = None\<rparr>,
                ''b.js'' \<mapsto> \<lparr>hash = ''h1'', content = None\<rparr>],
       dest = [''a.js'' \<mapsto> ''compiled a.js'', ''b.js'' \<mapsto> ''compiled b.js''],
       modules = [''a.js'', ''b.js''], writes = [[''a.js'', ''b.js'']]\<rparr> =
     (None, \<lparr>cache = warm_cache,
             dest = [''a.js'' \<mapsto> ''compiled a.js'', ''b.js'' \<mapsto> ''compiled b.js''],
             modules = [''a.js'', ''b.js''], writes = [[''a.js'', ''b.js'']]\<rparr>)"
    by (simp add: reconcile_def two_files_def readback_step_def warm_cache_def fun_upd_twist)
  show ?thesis by (rule write_steps [OF two_files_planning t r])
qed









lemma with_source_maps_planning:
  "planning with_source_maps no_entries empty_dir =
     (None, \<lparr>cache = [''a.js'' \<mapsto> \<lparr>hash = ''h1'', content = None\<rparr>],
             dest = empty_dir, modules = [''a.js''], writes = []\<rparr>)"
  by (simp add: planning_def with_source_maps_def start_def plan_step_def no_entries_def)

lemma with_source_maps_transform:
  "transform with_source_maps
      \<lparr>cache = [''a.js'' \<mapsto> \<lparr>hash = ''h1'', content = None\<rparr>],
       dest = empty_dir, modules = [''a.js''], writes = []\<rparr> =
     (None, \<lparr>cache = [''a.js'' \<mapsto> \<lparr>hash = ''h1'', content = None\<rparr>],
             dest = [''a.js'' \<mapsto> ''compiled a.js'', ''a.js.map'' \<mapsto> ''map of a.js''],
             modules = [''a.js''], writes = [[''a.js'']]\<rparr>)"
  by (simp add: transform_def with_source_maps_def empty_dir_def fun_eq_iff)

lemma with_source_maps_pass:
  "write with_source_maps no_entries empty_dir =
     (Some TypeError,
      \<lparr>cache = [''a.js'' \<mapsto> \<lparr>hash = ''h1'', content = Some ''compiled a.js''\<rparr>],
       dest = [''a.js'' \<mapsto> ''compiled a.js'', ''a.js.map'' \<mapsto> ''map of a.js''],
       modules = [''a.js''], writes = [[''a.js'']]\<rparr>)"
proof -
  have r: "reconcile with_source_maps
      \<lparr>cache = [''a.js'' \<mapsto> \<lparr>hash = ''h1'', content = None\<rparr>],
       dest = [''a.js'' \<mapsto> ''compiled a.js'', ''a.js.map'' \<mapsto> ''map of a.js''],
       modules = [''a.js''], writes = [[''a.js'']]\<rparr> =
     (Some TypeError,
      \<lparr>cache = [''a.js'' \<mapsto> \<lparr>hash = ''h1'', content = Some ''compiled a.js''\<rparr>],
       dest = [''a.js'' \<mapsto> ''compiled a.js'', ''a.js.map'' \<mapsto> ''map of a.js''],
       modules = [''a.js''], writes = [[''a.js'']]\<rparr>)"
    by (simp add: reconcile_def with_source_maps_def readback_step_def)
  show ?thesis by (rule write_steps [OF with_source_maps_planning with_source_maps_transform r])
qed

section \<open>The claims\<close>

subsection \<open>C1: equal fingerprints\<close>

text \<open>
  C1, as stated, fails. The claim: an identity whose entry holds the fingerprint just
  computed is replayed only if the entry has content, and is classified as recompute when
  it has none. The loop tests the fingerprint alone (line 152). Here the entry of
  \<^verbatim>\<open>a.js\<close> holds the current fingerprint \<^verbatim>\<open>h1\<close> and no content: \<^verbatim>\<open>a.js\<close> is not
  registered with the container; \<^verbatim>\<open>undefined\<close> is handed to \<^verbatim>\<open>fs.writeFileSync\<close>,
  which stores the text \<^verbatim>\<open>undefined\<close> at the destination or, on a runtime that rejects
  such data, throws.
\<close>

theorem C1_replay_without_content_counterexample:
  "hashStats two_files ''a.js'' = Some ''h1'' \<and>
   no_content_cache ''a.js'' = Some \<lparr>hash = ''h1'', content = None\<rparr> \<and>
   fst (plan_step two_files (start no_content_cache empty_dir) ''a.js'') = None \<and>
   modules (snd (plan_step two_files (start no_content_cache empty_dir) ''a.js'')) = [] \<and>
   dest (snd (plan_step two_files (start no_content_cache empty_dir) ''a.js'')) ''a.js'' =
     Some ''undefined'' \<and>
   fst (plan_step strict_runtime (start no_content_cache empty_dir) ''a.js'') =
     Some WriteError \<and>
   modules (snd (plan_step strict_runtime (start no_content_cache empty_dir) ''a.js'')) = []"
  by (simp add: plan_step_def two_files_def strict_runtime_def start_def no_content_cache_def
      writeFileSync_def empty_dir_def)

text \<open>
  C1, amended. An identity that has an entry whose stored fingerprint equals the one just
  computed is replayed whether or not the entry has content: it is never registered with
  the container and the cache is left as it is. When the entry has content, these bytes
  are written at the identity's place under the destination; when it has none, the write
  receives \<^verbatim>\<open>undefined\<close>, with the effect the runtime gives it.
\<close>

theorem C1_replay_on_equal_fingerprint:
  assumes "hashStats w p = Some h" and "cache st p = Some c" and "hash c = h"
  shows "modules (snd (plan_step w st p)) = modules st \<and>
         cache (snd (plan_step w st p)) = cache st \<and>
         plan_step w st p =
           (case content c of
              Some s \<Rightarrow> (None, st\<lparr>dest := (dest st)(outPath w p \<mapsto> s)\<rparr>)
            | None \<Rightarrow>
                (case writeUndefined w of
                   Some s \<Rightarrow> (None, st\<lparr>dest := (dest st)(outPath w p \<mapsto> s)\<rparr>)
                 | None \<Rightarrow> (Some WriteError, st)))"
  using assms by (simp add: plan_step_hit writeFileSync_def split: option.splits)

theorem C1_replay_on_equal_fingerprint_witness:
  "plan_step two_files (start warm_cache empty_dir) ''a.js'' =
     (None, \<lparr>cache = warm_cache, dest = empty_dir(''a.js'' \<mapsto> ''compiled a.js''),
             modules = [], writes = []\<rparr>)"
proof -
  have h: "hashStats two_files ''a.js'' = Some ''h1''" by (simp add: two_files_def)
  have c: "cache (start warm_cache empty_dir) ''a.js'' =
      Some \<lparr>hash = ''h1'', content = Some ''compiled a.js''\<rparr>"
    by (simp add: start_def warm_cache_def)
  have e: "hash \<lparr>hash = ''h1'', content = Some ''compiled a.js''\<rparr> = ''h1''" by simp
  show ?thesis
    using C1_replay_on_equal_fingerprint [OF h c e] by (simp add: start_def two_files_def)
qed

subsection \<open>C2: which contents the read-back sets\<close>




subsection \<open>C3: two passes over unchanged files\<close>




subsection \<open>C4: an identity seen for the first time\<close>

text \<open>
  C4. An identity that has no entry in the cache when the loop reaches it gets a new
  entry with the fingerprint just computed and no content, and is registered with the
  container (recompute). On the first pass of a new instance, whose cache is empty,
  nothing is replayed (the destination is untouched) and, when the loop completes, the
  container holds every input file, in order. (\<^verbatim>\<open>multiGlob\<close> returns each path once.)
\<close>

theorem C4_cold_miss:
  "(hashStats w p = Some h \<and> cache st p = None \<longrightarrow>
      plan_step w st p =
        (None, st\<lparr>cache := (cache st)(p \<mapsto> \<lparr>hash = h, content = None\<rparr>),
                   modules := modules st @ [p]\<rparr>)) \<and>
   (CompileModules lib tree options = Inr this \<and> srcGlob w = Some files \<and> distinct files \<and>
    planning w (compile_modules.cache this) d = (e, st') \<longrightarrow>
      dest st' = d \<and> (e = None \<longrightarrow> modules st' = files))"
proof -
  have step: "hashStats w p = Some h \<and> cache st p = None \<longrightarrow>
      plan_step w st p =
        (None, st\<lparr>cache := (cache st)(p \<mapsto> \<lparr>hash = h, content = None\<rparr>),
                   modules := modules st @ [p]\<rparr>)"
    by (simp add: plan_step_cold)
  have loop: "dest st' = d \<and> (e = None \<longrightarrow> modules st' = files)"
    if a: "CompileModules lib tree options = Inr this \<and> srcGlob w = Some files \<and>
      distinct files \<and> planning w (compile_modules.cache this) d = (e, st')"
  proof -
    have empty: "compile_modules.cache this = Map.empty"
      using a by (auto simp: CompileModules_def split: sum.splits option.splits)
    have l: "plan_loop w (start Map.empty d) files = (e, st')"
      using a empty by (auto simp: planning_def)
    have c: "\<forall>p\<in>set files. cache (start Map.empty d) p = None" by (simp add: start_def)
    have dd: "distinct files" using a by simp
    show ?thesis using plan_loop_cold [OF dd c l] by (simp add: start_def)
  qed
  show ?thesis using step loop by blast
qed

theorem C4_cold_miss_witness:
  "plan_step two_files (start no_entries empty_dir) ''a.js'' =
     (None, \<lparr>cache = [''a.js'' \<mapsto> \<lparr>hash = ''h1'', content = None\<rparr>], dest = empty_dir,
             modules = [''a.js''], writes = []\<rparr>) \<and>
   modules (snd (planning two_files (compile_modules.cache example_instance) empty_dir)) =
     [''a.js'', ''b.js'']"
proof -
  have h: "hashStats two_files ''a.js'' = Some ''h1'' \<and>
      cache (start no_entries empty_dir) ''a.js'' = None"
    by (simp add: two_files_def start_def no_entries_def)
  have e: "compile_modules.cache example_instance = no_entries"
    by (simp add: example_instance_def no_entries_def)
  have g: "CompileModules example_library (JObject 7) (Some example_options) = Inr example_instance \<and>
      srcGlob two_files = Some [''a.js'', ''b.js''] \<and> distinct [''a.js'', ''b.js''] \<and>
      planning two_files (compile_modules.cache example_instance) empty_dir =
        (None, snd (planning two_files no_entries empty_dir))"
    using example_construction e by (simp add: two_files_planning) (simp add: two_files_def)
  show ?thesis
    using h g C4_cold_miss [of two_files "''a.js''" "''h1''" "start no_entries empty_dir"
        example_library "JObject 7" "Some example_options" example_instance
        "[''a.js'', ''b.js'']" empty_dir None "snd (planning two_files no_entries empty_dir)"]
    by (simp add: start_def e no_entries_def two_files_planning)
qed

subsection \<open>C5: a fingerprint that has changed\<close>

text \<open>
  C5. An identity whose entry holds another fingerprint than the one just computed has
  the stored fingerprint overwritten with the current one, keeps the content the entry
  had, and is registered with the container (recompute). The update comes before the
  recompute: at that moment the container has written nothing, and after the planning
  loop no step of the pass changes a stored fingerprint.
\<close>

theorem C5_stale_fingerprint:
  "(hashStats w p = Some h \<and> cache st p = Some c \<and> hash c \<noteq> h \<longrightarrow>
      plan_step w st p =
        (None, st\<lparr>cache := (cache st)(p \<mapsto> c\<lparr>hash := h\<rparr>), modules := modules st @ [p]\<rparr>) \<and>
      map_option content (cache (snd (plan_step w st p)) p) = Some (content c) \<and>
      writes (snd (plan_step w st p)) = writes st) \<and>
   map_option hash (cache (snd (write w c0 d)) q) =
     map_option hash (cache (snd (planning w c0 d)) q)"
  using write_hash [of w c0 d q] by (simp add: plan_step_stale)

theorem C5_stale_fingerprint_witness:
  "plan_step a_touched (start warm_cache empty_dir) ''a.js'' =
     (None, \<lparr>cache = warm_cache(''a.js'' \<mapsto> \<lparr>hash = ''h2'', content = Some ''compiled a.js''\<rparr>),
             dest = empty_dir, modules = [''a.js''], writes = []\<rparr>)"
proof -
  have h: "hashStats a_touched ''a.js'' = Some ''h2'' \<and>
      cache (start warm_cache empty_dir) ''a.js'' =
        Some \<lparr>hash = ''h1'', content = Some ''compiled a.js''\<rparr> \<and>
      hash \<lparr>hash = ''h1'', content = Some ''compiled a.js''\<rparr> \<noteq> ''h2''"
    by (simp add: a_touched_def two_files_def start_def warm_cache_def)
  show ?thesis
    using h C5_stale_fingerprint [of a_touched "''a.js''" "''h2''" "start warm_cache empty_dir"
        "\<lparr>hash = ''h1'', content = Some ''compiled a.js''\<rparr>"]
    by (simp add: start_def)
qed

subsection \<open>C6: when construction fails\<close>

text \<open>
  C6 does not hold of the code. The claim: construction fails exactly when the arguments
  are invalid, among other things when the formatter is a name that resolves to no
  built-in formatter. The name \<^verbatim>\<open>'constructor'\<close> is none of the built-in formatters
  that the message of line 94 lists, yet line 92 reads \<^verbatim>\<open>formatters['constructor']\<close>
  and finds the inherited function \<^verbatim>\<open>Object\<close>, line 102 instantiates it, the empty
  object passes the test of line 105, and construction succeeds with that object as the
  formatter.
\<close>

theorem C6_inherited_formatter_name_accepted:
  "builtin_names transpiler_keys = [''bundle'', ''commonjs''] \<and>
   constructor_options ''formatter'' = JString ''constructor'' \<and>
   CompileModules transpiler_library (JObject 7) (Some constructor_options) =
     Inr \<lparr>inputTree = JObject 7, inputFiles = JArray [JString ''*.js''],
          output = JString ''/'', formatter = JObject 2, cache = no_entries\<rparr>"
  by (simp add: builtin_names_def transpiler_keys_def constructor_options_def
      CompileModules_def setInputTree_def setInputFiles_def setOutput_def setFormatter_def
      lookupFormatter_def transpiler_library_def example_library_def example_options_def
      no_entries_def)

subsection \<open>C7: a file that cannot be stat'ed\<close>

text \<open>
  C7. When the fingerprint of an identity cannot be taken part of the way through the
  planning loop, the pass ends there with that error: the container is never asked to
  write, nothing is read back, and the cache is exactly as the iterations for the
  earlier identities left it, with nothing done for the failing identity or for those
  after it.
\<close>

theorem C7_stat_failure_keeps_earlier_updates:
  assumes "srcGlob w = Some (pre @ p # post)"
    and "plan_loop w (start c d) pre = (None, st)"
    and "hashStats w p = None"
  shows "write w c d = (Some StatError, st) \<and> writes st = []"
proof -
  have "plan_loop w (start c d) (pre @ p # post) = (Some StatError, st)"
    using assms(2,3) by (simp add: plan_loop_append plan_step_nostat)
  then have p: "planning w c d = (Some StatError, st)"
    using assms(1) by (simp add: planning_def)
  have "writes st = []" using planning_writes [of w c d] p by simp
  then show ?thesis using p by (simp add: write_planning_failed)
qed

theorem C7_stat_failure_keeps_earlier_updates_witness:
  "write b_vanished no_entries empty_dir =
     (Some StatError, \<lparr>cache = [''a.js'' \<mapsto> \<lparr>hash = ''h1'', content = None\<rparr>],
                       dest = empty_dir, modules = [''a.js''], writes = []\<rparr>)"
proof -
  have g: "srcGlob b_vanished = Some ([''a.js''] @ ''b.js'' # [])"
    by (simp add: b_vanished_def two_files_def)
  have l: "plan_loop b_vanished (start no_entries empty_dir) [''a.js''] =
      (None, \<lparr>cache = [''a.js'' \<mapsto> \<lparr>hash = ''h1'', content = None\<rparr>],
              dest = empty_dir, modules = [''a.js''], writes = []\<rparr>)"
    by (simp add: b_vanished_def two_files_def start_def plan_step_def no_entries_def)
  have h: "hashStats b_vanished ''b.js'' = None"
    by (simp add: b_vanished_def two_files_def)
  show ?thesis using C7_stat_failure_keeps_earlier_updates [OF g l h] by simp
qed

subsection \<open>C8: the cache only grows\<close>

text \<open>
  C8. A new instance has an empty cache. No step of a pass removes an entry: an iteration
  of the planning loop keeps every entry, the bulk write does not touch the cache, the
  read-back keeps the set of entries as it is. So after a pass, however it ends, and
  after any sequence of passes, every identity that had an entry still has one, also an
  identity that is no longer among the input files.
\<close>

theorem C8_cache_never_shrinks:
  "(CompileModules lib tree options = Inr this \<longrightarrow> compile_modules.cache this = Map.empty) \<and>
   dom (cache st) \<subseteq> dom (cache (snd (plan_step w st p))) \<and>
   cache (snd (transform w st)) = cache st \<and>
   dom (cache (snd (readback_step w st p))) = dom (cache st) \<and>
   dom c \<subseteq> dom (cache (snd (write w c d))) \<and>
   dom c \<subseteq> dom (rebuilds ps c)"
proof -
  have "CompileModules lib tree options = Inr this \<longrightarrow> compile_modules.cache this = Map.empty"
    by (auto simp: CompileModules_def split: sum.splits option.splits)
  then show ?thesis
    using plan_step_dom [of st w p] transform_frame [of w st] readback_step_dom [of w st p]
      write_dom [of c w d] rebuilds_dom [of c ps]
    by simp
qed

theorem C8_cache_never_shrinks_witness:
  "compile_modules.cache example_instance = no_entries \<and>
   ''b.js'' \<in> dom (rebuilds [(two_files, empty_dir), (b_removed, empty_dir)] no_entries)"
proof -
  have b: "''b.js'' \<in> dom warm_cache" by (simp add: warm_cache_def)
  have r: "rebuilds [(two_files, empty_dir), (b_removed, empty_dir)] no_entries =
      rebuilds [(b_removed, empty_dir)] warm_cache"
    by (simp add: two_files_first_pass)
  have t: "compile_modules.cache example_instance = Map.empty \<and>
      dom warm_cache \<subseteq> dom (rebuilds [(b_removed, empty_dir)] warm_cache)"
    using example_construction
      C8_cache_never_shrinks [of example_library "JObject 7" "Some example_options"
        example_instance "start no_entries empty_dir" two_files "''a.js''" warm_cache
        empty_dir "[(b_removed, empty_dir)]"]
    by blast
  show ?thesis using b r t by (auto simp: no_entries_def simp del: rebuilds.simps)
qed

subsection \<open>C9: the bulk write\<close>



subsection \<open>C10: the read-back does not test for an entry\<close>

text \<open>
  C10. The read-back completes only if every path that the globs match in the destination
  directory has an entry in the cache. When a matched path has none, the pass ends with
  an error, and by then the destination holds what the transform has written.
\<close>

theorem C10_readback_needs_entries:
  "(reconcile w st = (None, st') \<longrightarrow>
      (\<exists>outs. destGlob w (dest st) = Some outs \<and> (\<forall>p\<in>set outs. cache st p \<noteq> None))) \<and>
   (planning w c d = (None, st1) \<and> transform w st1 = (None, st2) \<and>
    destGlob w (dest st2) = Some outs \<and> p \<in> set outs \<and> cache st2 p = None \<longrightarrow>
      fst (write w c d) \<noteq> None \<and> dest (snd (write w c d)) = dest st2 \<and>
      containerWrite w (modules st1) (dest st1) = Some (dest st2))"
proof -
  have first: "\<exists>outs. destGlob w (dest st) = Some outs \<and> (\<forall>p\<in>set outs. cache st p \<noteq> None)"
    if r: "reconcile w st = (None, st')"
  proof (cases "destGlob w (dest st)")
    case None
    then show ?thesis using r by (simp add: reconcile_def)
  next
    case (Some outs)
    then have "readback w st outs = (None, st')" using r by (simp add: reconcile_def)
    then show ?thesis using Some readback_needs_entries by blast
  qed
  have second: "fst (write w c d) \<noteq> None \<and> dest (snd (write w c d)) = dest st2 \<and>
      containerWrite w (modules st1) (dest st1) = Some (dest st2)"
    if a: "planning w c d = (None, st1) \<and> transform w st1 = (None, st2) \<and>
      destGlob w (dest st2) = Some outs \<and> p \<in> set outs \<and> cache st2 p = None"
  proof -
    have w: "write w c d = reconcile w st2" using a by (simp add: write_def)
    have "fst (reconcile w st2) \<noteq> None"
    proof
      assume "fst (reconcile w st2) = None"
      then have "reconcile w st2 = (None, snd (reconcile w st2))"
        by (metis prod.collapse)
      then have "readback w st2 outs = (None, snd (reconcile w st2))"
        using a by (simp add: reconcile_def)
      then have "cache st2 p \<noteq> None" using a readback_needs_entries by blast
      then show False using a by simp
    qed
    moreover have "dest (snd (reconcile w st2)) = dest st2"
      using reconcile_frame [of w st2] by simp
    moreover have "containerWrite w (modules st1) (dest st1) = Some (dest st2)"
      using a by (auto simp: transform_def Let_def split: option.splits)
    ultimately show ?thesis using w by simp
  qed
  show ?thesis using first second by blast
qed

theorem C10_readback_needs_entries_witness:
  "destGlob two_files [''a.js'' \<mapsto> ''compiled a.js'', ''b.js'' \<mapsto> ''compiled b.js''] =
     Some [''a.js'', ''b.js''] \<and>
   warm_cache ''a.js'' \<noteq> None \<and> warm_cache ''b.js'' \<noteq> None \<and>
   fst (write with_source_maps no_entries empty_dir) = Some TypeError \<and>
   dest (snd (write with_source_maps no_entries empty_dir)) =
     [''a.js'' \<mapsto> ''compiled a.js'', ''a.js.map'' \<mapsto> ''map of a.js'']"
proof -
  have r: "reconcile two_files
      \<lparr>cache = warm_cache,
       dest = [''a.js'' \<mapsto> ''compiled a.js'', ''b.js'' \<mapsto> ''compiled b.js''],
       modules = [], writes = [[]]\<rparr> =
     (None, \<lparr>cache = warm_cache,
             dest = [''a.js'' \<mapsto> ''compiled a.js'', ''b.js'' \<mapsto> ''compiled b.js''],
             modules = [], writes = [[]]\<rparr>)"
    by (simp add: reconcile_def two_files_def readback_step_def warm_cache_def fun_eq_iff)
  have g: "destGlob two_files [''a.js'' \<mapsto> ''compiled a.js'', ''b.js'' \<mapsto> ''compiled b.js''] =
     Some [''a.js'', ''b.js'']"
    by (simp add: two_files_def)
  have o: "destGlob with_source_maps
      [''a.js'' \<mapsto> ''compiled a.js'', ''a.js.map'' \<mapsto> ''map of a.js''] =
     Some [''a.js'', ''a.js.map'']"
    by (simp add: with_source_maps_def)
  have fst_part: "warm_cache ''a.js'' \<noteq> None \<and> warm_cache ''b.js'' \<noteq> None"
    using r g
      C10_readback_needs_entries [where w = two_files
        and st = "\<lparr>cache = warm_cache,
          dest = [''a.js'' \<mapsto> ''compiled a.js'', ''b.js'' \<mapsto> ''compiled b.js''],
          modules = [], writes = [[]]\<rparr>"
        and st' = "\<lparr>cache = warm_cache,
          dest = [''a.js'' \<mapsto> ''compiled a.js'', ''b.js'' \<mapsto> ''compiled b.js''],
          modules = [], writes = [[]]\<rparr>"]
    by simp
  have snd_part: "fst (write with_source_maps no_entries empty_dir) \<noteq> None \<and>
      dest (snd (write with_source_maps no_entries empty_dir)) =
        [''a.js'' \<mapsto> ''compiled a.js'', ''a.js.map'' \<mapsto> ''map of a.js'']"
    using with_source_maps_planning with_source_maps_transform o
      C10_readback_needs_entries [where w = with_source_maps and c = no_entries
        and d = empty_dir
        and ?st1.0 = "\<lparr>cache = [''a.js'' \<mapsto> \<lparr>hash = ''h1'', content = None\<rparr>],
          dest = empty_dir, modules = [''a.js''], writes = []\<rparr>"
        and ?st2.0 = "\<lparr>cache = [''a.js'' \<mapsto> \<lparr>hash = ''h1'', content = None\<rparr>],
          dest = [''a.js'' \<mapsto> ''compiled a.js'', ''a.js.map'' \<mapsto> ''map of a.js''],
          modules = [''a.js''], writes = [[''a.js'']]\<rparr>"
        and outs = "[''a.js'', ''a.js.map'']" and p = "''a.js.map''"]
    by simp
  show ?thesis using g fst_part snd_part by (simp add: with_source_maps_pass)
qed

end
